theory Spec2Isabelle
  imports Complex_Main
begin

section \<open>The notebook's perturbation closure\<close>

text \<open>
  The notebook \<^verbatim>\<open>Propagation using Cowell's formulation.ipynb\<close> defines one
  function of its own:
  \<^verbatim>\<open>
  def constant_accel_factory(accel):
      def constant_accel(t0, u, k):
          v = u[3:]
          norm_v = (v[0]**2 + v[1]**2 + v[2]**2)**.5
          return accel * v / norm_v

      return constant_accel
  \<close>
  The state \<open>u\<close> is a one-dimensional numpy array of float64 (the notebook builds one
  in \<^verbatim>\<open>state_to_vector\<close>, and \<open>accel * v / norm_v\<close> is array arithmetic), so
  the arithmetic is numpy's: an operation on floats never raises, a division by zero
  gives an infinity or NaN (with a warning). The only step that can raise is the indexing
  \<open>v[0]\<close>, \<open>v[1]\<close>, \<open>v[2]\<close> of a slice that is too short.
\<close>

subsection \<open>Float values\<close>

text \<open>
  A float64 is a finite value, an infinity or NaN. A finite value is the real number it
  stands for. Zero has no sign here; the one divisor of the function is a square root,
  which is never \<open>-0.0\<close>, so a zero divisor is read as \<open>+0.0\<close>.
\<close>

datatype npfloat = Fin real | PInf | NInf | NaN

text \<open>
  The result of an operation on finite values is the exact result rounded to float64:
  to the nearest multiple of the unit in the last place, a tie going to the even
  multiple (\<open>rne\<close>). The unit is \<open>2^(e - 52)\<close> for a value in
  \<open>[2^e, 2^(e + 1))\<close> and \<open>2^-1074\<close> below \<open>2^-1022\<close>, so that tiny values
  underflow gradually to zero; a rounded value of magnitude \<open>2^1024\<close> or more
  overflows to infinity.
\<close>

definition rne :: "real \<Rightarrow> int" where
  "rne q = (let f = \<lfloor>q\<rfloor>; d = q - of_int f in
            if d < 1 / 2 then f else if 1 / 2 < d then f + 1
            else if even f then f else f + 1)"

definition round_f64 :: "real \<Rightarrow> npfloat" where
  "round_f64 x =
     (if x = 0 then Fin 0
      else
        let ulp = 2 powr of_int (max \<lfloor>log 2 \<bar>x\<bar>\<rfloor> (- 1022) - 52);
            y = of_int (rne (x / ulp)) * ulp
        in if 2 ^ 1024 \<le> \<bar>y\<bar> then (if 0 < x then PInf else NInf) else Fin y)"

fun np_add :: "npfloat \<Rightarrow> npfloat \<Rightarrow> npfloat" where
  "np_add NaN _ = NaN"
| "np_add _ NaN = NaN"
| "np_add (Fin a) (Fin b) = round_f64 (a + b)"
| "np_add PInf NInf = NaN"
| "np_add NInf PInf = NaN"
| "np_add PInf _ = PInf"
| "np_add _ PInf = PInf"
| "np_add NInf _ = NInf"
| "np_add _ NInf = NInf"

fun np_mul :: "npfloat \<Rightarrow> npfloat \<Rightarrow> npfloat" where
  "np_mul NaN _ = NaN"
| "np_mul _ NaN = NaN"
| "np_mul (Fin a) (Fin b) = round_f64 (a * b)"
| "np_mul (Fin a) PInf = (if a = 0 then NaN else if 0 < a then PInf else NInf)"
| "np_mul (Fin a) NInf = (if a = 0 then NaN else if 0 < a then NInf else PInf)"
| "np_mul PInf (Fin b) = (if b = 0 then NaN else if 0 < b then PInf else NInf)"
| "np_mul NInf (Fin b) = (if b = 0 then NaN else if 0 < b then NInf else PInf)"
| "np_mul PInf PInf = PInf"
| "np_mul NInf NInf = PInf"
| "np_mul PInf NInf = NInf"
| "np_mul NInf PInf = NInf"

fun np_div :: "npfloat \<Rightarrow> npfloat \<Rightarrow> npfloat" where
  "np_div NaN _ = NaN"
| "np_div _ NaN = NaN"
| "np_div (Fin a) (Fin b) =
     (if b \<noteq> 0 then round_f64 (a / b)
      else if a = 0 then NaN else if 0 < a then PInf else NInf)"
| "np_div (Fin a) _ = Fin 0"
| "np_div PInf (Fin b) = (if 0 \<le> b then PInf else NInf)"
| "np_div NInf (Fin b) = (if 0 \<le> b then NInf else PInf)"
| "np_div _ _ = NaN"

text \<open>
  \<open>x**2\<close> is the rounded product of \<open>x\<close> with itself. \<open>x**.5\<close> is the power
  function of C at the exponent one half: the rounded square root of a non-negative
  value, NaN on a negative one, and infinity on both infinities. In \<open>norm_v\<close> its
  argument is a sum of squares.
\<close>

definition np_square :: "npfloat \<Rightarrow> npfloat" where
  "np_square x = np_mul x x"

fun np_pow_half :: "npfloat \<Rightarrow> npfloat" where
  "np_pow_half (Fin a) = (if a < 0 then NaN else round_f64 (sqrt a))"
| "np_pow_half PInf = PInf"
| "np_pow_half NInf = PInf"
| "np_pow_half NaN = NaN"

subsection \<open>constant_accel_factory\<close>

datatype py_error = IndexError

text \<open>
  \<open>u[3:]\<close> is \<open>drop 3 u\<close>, and never raises; \<open>v[i]\<close> raises IndexError when the
  slice has fewer than three entries. \<open>accel * v / norm_v\<close> multiplies every entry of
  \<open>v\<close> by \<open>accel\<close> and then divides it by \<open>norm_v\<close>. The arguments \<open>t0\<close> and
  \<open>k\<close> are taken and not used.
\<close>

definition constant_accel_factory ::
  "npfloat \<Rightarrow> npfloat \<Rightarrow> npfloat list \<Rightarrow> npfloat \<Rightarrow> py_error + npfloat list" where
  "constant_accel_factory accel = (\<lambda>t0 u k.
     let v = drop 3 u in
     if length v < 3 then Inl IndexError
     else
       let norm_v = np_pow_half (np_add (np_add (np_square (v ! 0)) (np_square (v ! 1)))
                                        (np_square (v ! 2)))
       in Inr (map (\<lambda>x. np_div (np_mul accel x) norm_v) v))"

text \<open>The Euclidean norm of three real components.\<close>

definition euclid :: "real \<Rightarrow> real \<Rightarrow> real \<Rightarrow> real" where
  "euclid x y z = sqrt (x\<^sup>2 + y\<^sup>2 + z\<^sup>2)"

text \<open>A real number that is a float64 value: rounding leaves it as it is.\<close>

definition is_float64 :: "real \<Rightarrow> bool" where
  "is_float64 x \<longleftrightarrow> round_f64 x = Fin x"

section \<open>The propagator\<close>

text \<open>
  The notebook imports \<^verbatim>\<open>propagate\<close> and \<^verbatim>\<open>cowell\<close> from
  \<^verbatim>\<open>poliastro.twobody.propagation\<close> and only calls them; that module is not
  among the sources. The propagator is therefore modelled from the specification, in
  exact real arithmetic. What the specification leaves to the implementation (the
  coefficients of the embedded pair, the step-size factors, the starting-step
  heuristic) is a parameter of the model.
\<close>

subsection \<open>State and vector field\<close>

text \<open>
  Modelled from the spec: the State of section 3, absent from the sources: a position and
  a velocity of three real components each, a 6-vector for the integration.
\<close>

type_synonym vec3 = "real \<times> real \<times> real"

type_synonym State = "vec3 \<times> vec3"

definition position :: "State \<Rightarrow> vec3" where
  "position s = fst s"

definition velocity :: "State \<Rightarrow> vec3" where
  "velocity s = snd s"

text \<open>
  Modelled from the spec: the vector arithmetic that the formulas of section 4.1 and the
  integrator of section 4.3 use: the magnitude of a 3-vector, sum and multiple of
  3-vectors, \<open>y + c * d\<close> on states, and the largest absolute component of a state.
\<close>

fun norm3 :: "vec3 \<Rightarrow> real" where
  "norm3 (x, y, z) = euclid x y z"

fun add3 :: "vec3 \<Rightarrow> vec3 \<Rightarrow> vec3" where
  "add3 (x, y, z) (x', y', z') = (x + x', y + y', z + z')"

fun scale3 :: "real \<Rightarrow> vec3 \<Rightarrow> vec3" where
  "scale3 c (x, y, z) = (c * x, c * y, c * z)"

fun shift :: "State \<Rightarrow> real \<Rightarrow> State \<Rightarrow> State" where
  "shift (p, v) c (dp, dv) = (add3 p (scale3 c dp), add3 v (scale3 c dv))"

fun size6 :: "State \<Rightarrow> real" where
  "size6 ((x, y, z), (vx, vy, vz)) =
     max \<bar>x\<bar> (max \<bar>y\<bar> (max \<bar>z\<bar> (max \<bar>vx\<bar> (max \<bar>vy\<bar> \<bar>vz\<bar>))))"

text \<open>
  Modelled from the spec: the PerturbationFunction of sections 3 and 4.2, supplied by the
  caller: given time offset, state and gravitational parameter it produces a 3-component
  acceleration. The default returns the zero vector.
\<close>

type_synonym PerturbationFunction = "real \<Rightarrow> State \<Rightarrow> real \<Rightarrow> vec3"

definition zero_perturbation :: PerturbationFunction where
  "zero_perturbation t s k = (0, 0, 0)"

text \<open>
  Modelled from the spec: the error taxonomy of section 7. SingularityError carries the
  time at which it occurred, NonConvergenceError the last time and state reached,
  StepBudgetExceededError the partial trajectory.
\<close>

datatype error =
    SingularityError real
  | NonConvergenceError real State
  | InvalidTimeGridError
  | StepBudgetExceededError "State list"

text \<open>
  Modelled from the spec: the vector field \<open>derivative(t, state, k, perturbation)\<close> of
  section 4.1, absent from the sources: \<open>d(position)/dt = velocity\<close>,
  \<open>d(velocity)/dt = -k * position / |position|^3 + perturbation(t, state, k)\<close>, and a
  SingularityError when \<open>|position|\<close> is zero or numerically indistinguishable from
  zero. The spec gives no magnitude for the latter; it is the first argument, \<open>tiny\<close>.
\<close>

definition derivative ::
  "real \<Rightarrow> real \<Rightarrow> State \<Rightarrow> real \<Rightarrow> PerturbationFunction \<Rightarrow> error + State" where
  "derivative tiny t s k perturbation =
     (let r = norm3 (position s) in
      if r = 0 \<or> r \<le> tiny then Inl (SingularityError t)
      else Inr (velocity s, add3 (scale3 (- k / r ^ 3) (position s)) (perturbation t s k)))"

type_synonym VectorField = "real \<Rightarrow> State \<Rightarrow> error + State"

subsection \<open>Configuration and time grid\<close>

text \<open>
  Modelled from the spec: the configuration record of section 9, with the fields it
  names. The step budget is the ceiling on the number of trial steps of one call, and it
  bounds every loop of the model. \<open>backward\<close> records that backward propagation is
  requested (section 4.4), and \<open>singular_below\<close> is the position magnitude up to which
  the vector field reports a singularity (section 4.1).
\<close>

record ToleranceConfig =
  rtol :: real
  atol :: real
  max_step :: real
  min_step :: real
  step_budget :: nat
  backward :: bool
  singular_below :: real

text \<open>
  Modelled from the spec: the direction of propagation (section 4.4), forward unless
  backward propagation is requested.
\<close>

definition direction :: "ToleranceConfig \<Rightarrow> real" where
  "direction cfg = (if backward cfg then - 1 else 1)"

text \<open>
  Modelled from the spec: the validation of the TimeGrid (sections 3 and 4.4): the times
  are monotonically ordered in the direction of propagation, non-decreasing and
  non-negative forward, the mirror image backward.
\<close>

definition valid_time_grid :: "ToleranceConfig \<Rightarrow> real list \<Rightarrow> bool" where
  "valid_time_grid cfg time_grid \<longleftrightarrow>
     sorted (map (\<lambda>t. direction cfg * t) time_grid) \<and>
     list_all (\<lambda>t. 0 \<le> direction cfg * t) time_grid"

subsection \<open>Adaptive integrator\<close>

text \<open>
  Modelled from the spec: the IntegratorStep of section 3: start time, end time, step
  size, local error estimate and dense output (the interpolant of the step, a function of
  the requested time).
\<close>

record IntegratorStep =
  t_start :: real
  t_end :: real
  step_size :: real
  local_error :: real
  dense_output :: "real \<Rightarrow> State"

text \<open>
  Modelled from the spec: what section 9 leaves to the implementation, as a parameter.
  \<open>trial_step f t y h\<close> is one trial step of the embedded pair from \<open>(t, y)\<close> with
  the signed step \<open>h\<close>: the new state, the local error estimate and the interpolant, or
  the error of a vector-field evaluation. \<open>shrink\<close> and \<open>grow\<close> give the next step size
  from the current one, the tolerance and the error estimate; \<open>first_guess\<close> and
  \<open>second_guess\<close> are the two bootstrap trials of the starting step size.
\<close>

record Scheme =
  trial_step :: "VectorField \<Rightarrow> real \<Rightarrow> State \<Rightarrow> real
                   \<Rightarrow> error + (State \<times> real \<times> (real \<Rightarrow> State))"
  shrink :: "real \<Rightarrow> real \<Rightarrow> real \<Rightarrow> real"
  grow :: "real \<Rightarrow> real \<Rightarrow> real \<Rightarrow> real"
  first_guess :: "ToleranceConfig \<Rightarrow> State \<Rightarrow> State \<Rightarrow> real"
  second_guess :: "ToleranceConfig \<Rightarrow> State \<Rightarrow> State \<Rightarrow> State \<Rightarrow> real \<Rightarrow> real"

text \<open>
  Modelled from the spec: the tolerance that the local error estimate is compared with
  (section 4.3), from the absolute and the relative tolerance.
\<close>

definition tolerance :: "ToleranceConfig \<Rightarrow> State \<Rightarrow> real" where
  "tolerance cfg y = atol cfg + rtol cfg * size6 y"

text \<open>
  Modelled from the spec: one advance of the adaptive integrator (section 4.3), absent
  from the sources. The step size is kept within the minimum and maximum bounds; a trial
  step whose error estimate is within the tolerance is accepted, and the step size may
  grow; otherwise the step is rejected and the step size shrinks, and a step size below
  the minimum is a NonConvergenceError with the last time and state reached. The first
  argument of type \<open>nat\<close> is the budget of trial steps left; the result says how many
  are left afterwards.
\<close>

datatype advance_result =
    Accepted IntegratorStep State real nat
  | Failed error nat
  | BudgetReached

fun advance ::
  "Scheme \<Rightarrow> ToleranceConfig \<Rightarrow> VectorField \<Rightarrow> nat \<Rightarrow> real \<Rightarrow> State \<Rightarrow> real
     \<Rightarrow> advance_result" where
  "advance sch cfg f 0 t y h = BudgetReached"
| "advance sch cfg f (Suc n) t y h =
     (let h1 = max (min_step cfg) (min h (max_step cfg)) in
      case trial_step sch f t y (direction cfg * h1) of
        Inl e \<Rightarrow> Failed e n
      | Inr (y1, err, interp) \<Rightarrow>
          if err \<le> tolerance cfg y1 then
            Accepted \<lparr>t_start = t, t_end = t + direction cfg * h1, step_size = h1,
                      local_error = err, dense_output = interp\<rparr>
                     y1 (grow sch h1 (tolerance cfg y1) err) n
          else
            let h2 = shrink sch h1 (tolerance cfg y1) err in
            if h2 < min_step cfg then Failed (NonConvergenceError t y) n
            else advance sch cfg f n t y h2)"

text \<open>
  Modelled from the spec: the starting step size (section 4.3), derived from the initial
  state and its initial derivative by two bootstrap trials.
\<close>

definition starting_step ::
  "Scheme \<Rightarrow> ToleranceConfig \<Rightarrow> VectorField \<Rightarrow> real \<Rightarrow> State \<Rightarrow> error + real" where
  "starting_step sch cfg f t0 y0 =
     (case f t0 y0 of
        Inl e \<Rightarrow> Inl e
      | Inr f0 \<Rightarrow>
          let h0 = first_guess sch cfg y0 f0;
              y1 = shift y0 (direction cfg * h0) f0
          in (case f (t0 + direction cfg * h0) y1 of
                Inl e \<Rightarrow> Inl e
              | Inr f1 \<Rightarrow> Inr (second_guess sch cfg y0 f0 f1 h0)))"

subsection \<open>Propagation driver\<close>

text \<open>
  Modelled from the spec: the integrator state that one call of the driver owns (section
  5): the accepted frontier (current time and state), the next step size (none before
  the starting step is computed) and the most recently accepted step.
\<close>

record Frontier =
  t_now :: real
  y_now :: State
  h_next :: "real option"
  last_step :: "IntegratorStep option"

text \<open>
  Modelled from the spec: whether a requested time falls beyond the frontier, in the
  direction of propagation (section 4.4).
\<close>

definition beyond :: "ToleranceConfig \<Rightarrow> Frontier \<Rightarrow> real \<Rightarrow> bool" where
  "beyond cfg fr tr \<longleftrightarrow> direction cfg * t_now fr < direction cfg * tr"

text \<open>
  Modelled from the spec: the state at a requested time that is not beyond the frontier
  (section 4.4): the frontier state at the frontier itself, the dense output of the most
  recently accepted step inside that step, and the initial state while no step has been
  accepted.
\<close>

definition state_at :: "Frontier \<Rightarrow> real \<Rightarrow> State" where
  "state_at fr tr =
     (case last_step fr of
        None \<Rightarrow> y_now fr
      | Some st \<Rightarrow> if tr = t_end st then y_now fr else dense_output st tr)"

text \<open>
  Modelled from the spec: the loop of the driver (section 4.4), absent from the sources:
  for each requested time, in order, adaptive steps are taken while the time is beyond
  the frontier, and then the state at that time is appended to the trajectory. The result
  carries the budget of trial steps that is left.
\<close>

function run ::
  "Scheme \<Rightarrow> ToleranceConfig \<Rightarrow> VectorField \<Rightarrow> nat \<Rightarrow> Frontier \<Rightarrow> real list \<Rightarrow> State list
     \<Rightarrow> (error + State list) \<times> nat" where
  "run sch cfg f n fr [] acc = (Inr acc, n)"
| "run sch cfg f n fr (tr # ts) acc =
     (if beyond cfg fr tr then
        (case (case h_next fr of
                 Some h \<Rightarrow> Inr h
               | None \<Rightarrow> starting_step sch cfg f (t_now fr) (y_now fr)) of
           Inl e \<Rightarrow> (Inl e, n)
         | Inr h \<Rightarrow>
             (case advance sch cfg f n (t_now fr) (y_now fr) h of
                BudgetReached \<Rightarrow> (Inl (StepBudgetExceededError acc), 0)
              | Failed e m \<Rightarrow> (Inl e, m)
              | Accepted st y1 h1 m \<Rightarrow>
                  run sch cfg f m
                    \<lparr>t_now = t_end st, y_now = y1, h_next = Some h1, last_step = Some st\<rparr>
                    (tr # ts) acc))
      else
        run sch cfg f n fr ts (acc @ [state_at fr tr]))"
  by pat_completeness auto
termination
proof -
  have budget: "m < n" if "advance sch cfg f n t y h = Accepted st y1 h1 m"
    for sch cfg f n t y h st y1 h1 m
    using that
  proof (induction n arbitrary: h)
    case 0
    then show ?case by simp
  next
    case (Suc n)
    then show ?case
      by (fastforce simp: Let_def split: sum.splits prod.splits if_splits)
  qed
  show ?thesis
    by (relation "measures [\<lambda>(sch, cfg, f, n, fr, ts, acc). n,
                            \<lambda>(sch, cfg, f, n, fr, ts, acc). length ts]")
       (auto dest: budget)
qed

text \<open>
  Modelled from the spec: \<open>propagate(state0, k, time_grid, tolerance_config,
  perturbation)\<close> of section 4.4, absent from the sources. An invalid time grid is rejected
  first; otherwise the driver runs from time 0 and \<open>state0\<close>. \<open>propagate_counted\<close>
  also returns the number of trial steps that the call executed.
\<close>

definition propagate_counted ::
  "Scheme \<Rightarrow> State \<Rightarrow> real \<Rightarrow> real list \<Rightarrow> ToleranceConfig \<Rightarrow> PerturbationFunction
     \<Rightarrow> (error + State list) \<times> nat" where
  "propagate_counted sch state0 k time_grid cfg perturbation =
     (if \<not> valid_time_grid cfg time_grid then (Inl InvalidTimeGridError, 0)
      else
        let (res, left) =
              run sch cfg (\<lambda>t s. derivative (singular_below cfg) t s k perturbation)
                (step_budget cfg)
                \<lparr>t_now = 0, y_now = state0, h_next = None, last_step = None\<rparr> time_grid []
        in (res, step_budget cfg - left))"

text \<open>
  Modelled from the spec: the sequence of states that \<open>propagate\<close> returns, or its
  error (section 4.4).
\<close>

definition propagate ::
  "Scheme \<Rightarrow> State \<Rightarrow> real \<Rightarrow> real list \<Rightarrow> ToleranceConfig \<Rightarrow> PerturbationFunction
     \<Rightarrow> error + State list" where
  "propagate sch state0 k time_grid cfg perturbation =
     fst (propagate_counted sch state0 k time_grid cfg perturbation)"

subsection \<open>An instance\<close>

text \<open>
  The Heun-Euler pair, the smallest embedded pair, with halving on rejection and a linear
  interpolant, and a configuration for it. They serve to run the model on concrete
  inputs.
\<close>

definition heun_euler :: Scheme where
  "heun_euler =
     \<lparr>trial_step = (\<lambda>f t y h.
        case f t y of
          Inl e \<Rightarrow> Inl e
        | Inr k1 \<Rightarrow>
            (case f (t + h) (shift y h k1) of
               Inl e \<Rightarrow> Inl e
             | Inr k2 \<Rightarrow>
                 let y1 = shift (shift y (h / 2) k1) (h / 2) k2
                 in Inr (y1, size6 (shift y1 (- 1) (shift y h k1)),
                         \<lambda>tr. shift y ((tr - t) / h) (shift y1 (- 1) y)))),
      shrink = (\<lambda>h tol err. h / 2),
      grow = (\<lambda>h tol err. h),
      first_guess = (\<lambda>cfg y0 f0. max_step cfg),
      second_guess = (\<lambda>cfg y0 f0 f1 h0. h0)\<rparr>"

definition demo_config :: ToleranceConfig where
  "demo_config = \<lparr>rtol = 0, atol = 1, max_step = 1 / 2, min_step = 1 / 8,
                   step_budget = 10, backward = False, singular_below = 0\<rparr>"

section \<open>Properties of the closure\<close>

lemma euclid_zero_iff: "euclid x y z = 0 \<longleftrightarrow> x = 0 \<and> y = 0 \<and> z = 0"
proof -
  have "x\<^sup>2 + y\<^sup>2 + z\<^sup>2 = 0 \<longleftrightarrow> x = 0 \<and> y = 0 \<and> z = 0"
    by (metis add_nonneg_eq_0_iff add_nonneg_nonneg zero_eq_power2 zero_le_power2
        add.right_neutral)
  then show ?thesis
    by (simp add: euclid_def)
qed

subsection \<open>Rounding\<close>

lemma rne_of_int: "rne (of_int i) = i"
  by (simp add: rne_def)

lemma round_f64_zero: "round_f64 0 = Fin 0"
  by (simp add: round_f64_def)

text \<open>
  A significand of fewer than 54 bits at an exponent that float64 has is rounded to
  itself, or overflows.
\<close>

lemma round_f64_scaled:
  fixes m k :: int
  assumes m0: "m \<noteq> 0" and m53: "\<bar>m\<bar> < 2 ^ 53" and k: "- 1074 \<le> k"
  shows "round_f64 (of_int m * 2 powr of_int k) =
           (if 2 ^ 1024 \<le> \<bar>of_int m * 2 powr of_int k :: real\<bar>
            then (if 0 < m then PInf else NInf)
            else Fin (of_int m * 2 powr of_int k))"
proof -
  define x :: real where "x = of_int m * 2 powr of_int k"
  have xn: "x \<noteq> 0"
    using m0 by (simp add: x_def)
  have ax: "\<bar>x\<bar> = of_int \<bar>m\<bar> * 2 powr of_int k"
    by (simp add: x_def abs_mult)
  have "(of_int \<bar>m\<bar> :: real) < 2 ^ 53"
    using m53 by (metis of_int_less_iff of_int_numeral of_int_power)
  then have "\<bar>x\<bar> < 2 ^ 53 * 2 powr of_int k"
    unfolding ax by (simp add: mult_strict_right_mono)
  also have "\<dots> = 2 powr of_int (k + 53)"
    by (simp add: powr_add powr_numeral mult.commute [of "2 ^ 53"])
  finally have "\<bar>x\<bar> < 2 powr of_int (k + 53)" .
  then have fl: "\<lfloor>log 2 \<bar>x\<bar>\<rfloor> < k + 53"
    using xn by (simp add: floor_less_iff log_less_iff)
  define e where "e = max \<lfloor>log 2 \<bar>x\<bar>\<rfloor> (- 1022) - 52"
  have ek: "e \<le> k"
    using fl k by (simp add: e_def)
  define j where "j = nat (k - e)"
  have "(2::real) powr of_int k = 2 powr (of_int e + of_int (k - e))"
    by simp
  also have "\<dots> = 2 powr of_int e * 2 powr of_int (k - e)"
    by (simp only: powr_add)
  also have "(2::real) powr of_int (k - e) = 2 ^ j"
    using ek powr_real_of_int [of 2 "k - e"] by (simp add: j_def)
  finally have pk: "(2::real) powr of_int k = 2 powr of_int e * 2 ^ j" .
  have q: "x / 2 powr of_int e = of_int (m * 2 ^ j)"
    by (simp add: x_def pk)
  have y: "of_int (rne (x / 2 powr of_int e)) * 2 powr of_int e = x"
    unfolding q rne_of_int by (simp add: x_def pk)
  have pos: "0 < x \<longleftrightarrow> 0 < m"
    by (simp add: x_def zero_less_mult_iff)
  show ?thesis
    using xn y pos
    unfolding x_def [symmetric] round_f64_def e_def [symmetric] Let_def
    by (simp add: e_def)
qed

lemma is_float64_zero: "is_float64 0"
  by (simp add: is_float64_def round_f64_zero)

lemma is_float64_int:
  assumes "\<bar>i\<bar> < 2 ^ 53"
  shows "is_float64 (of_int i)"
proof (cases "i = 0")
  case True
  then show ?thesis
    by (simp add: is_float64_zero)
next
  case False
  have "(of_int \<bar>i\<bar> :: real) < 2 ^ 53"
    using assms by (metis of_int_less_iff of_int_numeral of_int_power)
  then have "\<not> (2 ^ 1024 \<le> \<bar>of_int i :: real\<bar>)"
    by (simp add: not_le)
  with round_f64_scaled [OF False assms, of 0] show ?thesis
    by (simp add: is_float64_def)
qed



text \<open>The quotient \<open>3 / 5\<close> is not a float64 value: dividing 3.0 by 5.0 rounds.\<close>

lemma not_is_float64_three_fifths: "\<not> is_float64 (3 / 5)"
proof
  assume a: "is_float64 (3 / 5)"
  have "(2::real) powr of_int (- 1) \<le> 3 / 5 \<and> (3 / 5 :: real) < 2 powr of_int (- 1 + 1)"
    by (simp add: powr_minus_divide)
  then have fl: "\<lfloor>log 2 (3 / 5 :: real)\<rfloor> = - 1"
    by (subst floor_log_eq_powr_iff) simp_all
  define j where "j = rne ((3 / 5) / 2 powr (- 53))"
  have p: "(2::real) powr (- 53) = 1 / 2 ^ 53"
    using powr_real_of_int [of 2 "- 53"] by (simp add: inverse_eq_divide)
  from a have "of_int j * (2::real) powr (- 53) = 3 / 5"
    by (simp add: is_float64_def round_f64_def fl Let_def j_def split: if_splits)
  then have "of_int j / (2 ^ 53 :: real) = 3 / 5"
    by (simp only: p times_divide_eq_right mult_1_right)
  then have "of_int j * 5 = (3 * 2 ^ 53 :: real)"
    by (simp add: field_simps)
  then have "of_int (j * 5) = (of_int (3 * 2 ^ 53) :: real)"
    by simp
  then have "j * 5 = 3 * 2 ^ 53"
    by (simp only: of_int_eq_iff)
  then have "(3 * 2 ^ 53 :: int) mod 5 = 0"
    by (metis mod_mult_self2_is_0)
  then show False
    by simp
qed

subsection \<open>The direction of the result\<close>




text \<open>
  Rounding alone is enough to leave the exact direction: at \<open>accel = 1\<close> and the
  velocity \<open>(3, 4, 0)\<close> the closure returns the rounded quotients.
\<close>

lemma constant_accel_rounds:
  "constant_accel_factory (Fin 1) t0 [p0, p1, p2, Fin 3, Fin 4, Fin 0] k \<noteq>
     Inr [Fin (3 / 5), Fin (4 / 5), Fin 0]"
proof -
  have f: "is_float64 0" "is_float64 3" "is_float64 4" "is_float64 5" "is_float64 9"
    "is_float64 16" "is_float64 25"
    using is_float64_zero is_float64_int [of 3] is_float64_int [of 4] is_float64_int [of 5]
      is_float64_int [of 9] is_float64_int [of 16] is_float64_int [of 25]
    by simp_all
  have "sqrt 25 = sqrt (5\<^sup>2)"
    by simp
  then have e: "sqrt 25 = 5"
    by (simp del: real_sqrt_abs)
  have "constant_accel_factory (Fin 1) t0 [p0, p1, p2, Fin 3, Fin 4, Fin 0] k =
          Inr [round_f64 (3 / 5), round_f64 (4 / 5), Fin 0]"
    using f by (simp add: constant_accel_factory_def np_square_def is_float64_def e)
  moreover have "round_f64 (3 / 5) \<noteq> Fin (3 / 5)"
    using not_is_float64_three_fifths by (simp add: is_float64_def)
  ultimately show ?thesis
    by simp
qed

text \<open>
  Claim C10. The function returned by \<open>constant_accel_factory\<close> depends on its state
  argument through the velocity part only: two calls whose 6-vectors agree on components
  3 to 5 return equal 3-vectors, whatever the time arguments, the gravitational
  parameters and the position components 0 to 2 are.
\<close>

theorem constant_accel_depends_on_velocity_only:
  assumes "length u = 6" and "length u' = 6"
    and "u ! 3 = u' ! 3" and "u ! 4 = u' ! 4" and "u ! 5 = u' ! 5"
  shows "constant_accel_factory accel t0 u k = constant_accel_factory accel t0' u' k'"
proof -
  have "drop 3 u = drop 3 u'"
  proof (rule nth_equalityI)
    show "length (drop 3 u) = length (drop 3 u')"
      using assms by simp
  next
    fix i
    assume "i < length (drop 3 u)"
    then have "i < 3"
      using assms by simp
    then have "i = 0 \<or> i = 1 \<or> i = 2"
      by arith
    then show "drop 3 u ! i = drop 3 u' ! i"
      using assms by auto
  qed
  then show ?thesis
    using assms(1,2) by (simp add: constant_accel_factory_def)
qed

theorem constant_accel_depends_on_velocity_only_witness:
  "constant_accel_factory (Fin 2) (Fin 0) [Fin 1, Fin 2, Fin 3, Fin 3, Fin 4, Fin 0] (Fin 1) =
   constant_accel_factory (Fin 2) (Fin 9) [Fin 7, NaN, PInf, Fin 3, Fin 4, Fin 0] (Fin 5)"
  by (rule constant_accel_depends_on_velocity_only) simp_all

text \<open>
  Claim C1 says that the closure fails when the velocity part has zero norm. It does
  not: with a velocity of zero \<open>norm_v\<close> is \<open>0.0\<close>, each entry \<open>accel * v[i]\<close> is
  \<open>0.0\<close>, an infinity times zero or NaN, and its quotient by \<open>0.0\<close> is NaN. The call
  returns the array of three NaN and raises nothing.
\<close>

theorem constant_accel_zero_velocity_counterexample:
  "constant_accel_factory (Fin 2) (Fin 0) [Fin 1, Fin 0, Fin 0, Fin 0, Fin 0, Fin 0] (Fin 1) =
     Inr [NaN, NaN, NaN]"
  by (simp add: constant_accel_factory_def np_square_def round_f64_zero)

text \<open>
  Claim C1, amended. For every \<open>accel\<close> and every 6-vector whose velocity part
  (components 3 to 5) has zero Euclidean norm, the function returned by
  \<open>constant_accel_factory accel\<close> raises no error: it divides by the zero norm and
  returns three NaN.
\<close>

theorem constant_accel_zero_velocity:
  assumes "euclid vx vy vz = 0"
  shows "constant_accel_factory accel t0 [p0, p1, p2, Fin vx, Fin vy, Fin vz] k =
           Inr [NaN, NaN, NaN]"
proof -
  have "vx = 0 \<and> vy = 0 \<and> vz = 0"
    using assms by (simp add: euclid_zero_iff)
  then show ?thesis
    by (cases accel) (simp_all add: constant_accel_factory_def np_square_def round_f64_zero)
qed

theorem constant_accel_zero_velocity_witness:
  "euclid 0 0 0 = 0 \<and>
   constant_accel_factory PInf (Fin 0) [Fin 1, Fin 0, Fin 0, Fin 0, Fin 0, Fin 0] (Fin 1) =
     Inr [NaN, NaN, NaN]"
proof -
  have h: "euclid 0 0 0 = 0"
    by (simp add: euclid_def)
  show ?thesis
    using constant_accel_zero_velocity [OF h, of PInf "Fin 0" "Fin 1" "Fin 0" "Fin 0" "Fin 1"] h
    by simp
qed

section \<open>Properties of the propagator\<close>

subsection \<open>The driver loop\<close>

declare run.simps(2) [simp del]

lemma run_not_beyond:
  "\<not> beyond cfg fr tr \<Longrightarrow>
     run sch cfg f n fr (tr # ts) acc = run sch cfg f n fr ts (acc @ [state_at fr tr])"
  by (subst run.simps(2)) simp

lemma run_beyond_Inr:
  assumes "beyond cfg fr tr" and "run sch cfg f n fr (tr # ts) acc = (Inr traj, m)"
  obtains h st y1 h1 k where
    "(case h_next fr of Some h \<Rightarrow> Inr h
      | None \<Rightarrow> starting_step sch cfg f (t_now fr) (y_now fr)) = Inr h"
    "advance sch cfg f n (t_now fr) (y_now fr) h = Accepted st y1 h1 k"
    "run sch cfg f k \<lparr>t_now = t_end st, y_now = y1, h_next = Some h1, last_step = Some st\<rparr>
       (tr # ts) acc = (Inr traj, m)"
  using assms by (subst (asm) run.simps(2)) (simp split: sum.splits advance_result.splits)

lemma run_extends:
  "run sch cfg f n fr ts acc = (Inr traj, m) \<Longrightarrow>
     \<exists>ys. traj = acc @ ys \<and> length ys = length ts"
proof (induction sch cfg f n fr ts acc rule: run.induct)
  case (1 sch cfg f n fr acc)
  then show ?case by simp
next
  case (2 sch cfg f n fr tr ts acc)
  show ?case
  proof (cases "beyond cfg fr tr")
    case False
    with "2.prems" have "run sch cfg f n fr ts (acc @ [state_at fr tr]) = (Inr traj, m)"
      by (simp add: run_not_beyond)
    with "2.IH"(2) [OF False] obtain ys
      where "traj = (acc @ [state_at fr tr]) @ ys" and "length ys = length ts"
      by blast
    then show ?thesis
      by simp
  next
    case True
    from run_beyond_Inr [OF True "2.prems"] obtain h st y1 h1 k
      where h: "(case h_next fr of Some h \<Rightarrow> Inr h
                 | None \<Rightarrow> starting_step sch cfg f (t_now fr) (y_now fr)) = Inr h"
        and a: "advance sch cfg f n (t_now fr) (y_now fr) h = Accepted st y1 h1 k"
        and r: "run sch cfg f k
                  \<lparr>t_now = t_end st, y_now = y1, h_next = Some h1, last_step = Some st\<rparr>
                  (tr # ts) acc = (Inr traj, m)"
      by blast
    from "2.IH"(1) [OF True h a r] show ?thesis .
  qed
qed


lemma run_prefix:
  "run sch cfg f n fr (ts @ ts') acc = (Inr traj, m) \<Longrightarrow>
     \<exists>m'. run sch cfg f n fr ts acc = (Inr (take (length acc + length ts) traj), m')"
proof (induction sch cfg f n fr ts acc rule: run.induct)
  case (1 sch cfg f n fr acc)
  then obtain ys where "traj = acc @ ys"
    using run_extends by fastforce
  then show ?case by simp
next
  case (2 sch cfg f n fr tr ts acc)
  show ?case
  proof (cases "beyond cfg fr tr")
    case False
    with "2.prems"
    have "run sch cfg f n fr (ts @ ts') (acc @ [state_at fr tr]) = (Inr traj, m)"
      by (simp add: run_not_beyond)
    from "2.IH"(2) [OF False this] False show ?thesis
      by (simp add: run_not_beyond)
  next
    case True
    from "2.prems" have p: "run sch cfg f n fr (tr # ts @ ts') acc = (Inr traj, m)"
      by simp
    obtain h st y1 h1 k
      where h: "(case h_next fr of Some h \<Rightarrow> Inr h
                 | None \<Rightarrow> starting_step sch cfg f (t_now fr) (y_now fr)) = Inr h"
        and a: "advance sch cfg f n (t_now fr) (y_now fr) h = Accepted st y1 h1 k"
        and r0: "run sch cfg f k
                  \<lparr>t_now = t_end st, y_now = y1, h_next = Some h1, last_step = Some st\<rparr>
                  (tr # ts @ ts') acc = (Inr traj, m)"
      by (rule run_beyond_Inr [OF True p])
    from r0 have r: "run sch cfg f k
                  \<lparr>t_now = t_end st, y_now = y1, h_next = Some h1, last_step = Some st\<rparr>
                  ((tr # ts) @ ts') acc = (Inr traj, m)"
      by simp
    from "2.IH"(1) [OF True h a r] obtain m' where
      "run sch cfg f k
         \<lparr>t_now = t_end st, y_now = y1, h_next = Some h1, last_step = Some st\<rparr>
         (tr # ts) acc = (Inr (take (length acc + length (tr # ts)) traj), m')"
      by blast
    with True h a show ?thesis
      by (subst run.simps(2)) simp
  qed
qed

lemma run_at_start:
  "last_step fr = None \<Longrightarrow> \<forall>t\<in>set zs. \<not> beyond cfg fr t \<Longrightarrow>
     run sch cfg f n fr (zs @ ts) acc = run sch cfg f n fr ts (acc @ replicate (length zs) (y_now fr))"
proof (induction zs arbitrary: acc)
  case Nil
  then show ?case by simp
next
  case (Cons z zs)
  then show ?case
    by (simp add: run_not_beyond state_at_def replicate_app_Cons_same)
qed

lemma valid_time_grid_take: "valid_time_grid cfg ts \<Longrightarrow> valid_time_grid cfg (take n ts)"
  by (auto simp: valid_time_grid_def take_map [symmetric] list_all_iff dest: in_set_takeD)

lemma direction_cases: "direction cfg = 1 \<or> direction cfg = - 1"
  by (simp add: direction_def)

lemma valid_time_grid_zero_prefix:
  assumes "valid_time_grid cfg ts" and "i < length ts" and "ts ! i = 0" and "j \<le> i"
  shows "ts ! j = 0"
proof -
  have "direction cfg * ts ! j \<le> direction cfg * ts ! i"
    using assms sorted_nth_mono [of "map (\<lambda>t. direction cfg * t) ts" j i]
    by (simp add: valid_time_grid_def)
  moreover have "0 \<le> direction cfg * ts ! j"
    using assms by (simp add: valid_time_grid_def list_all_length)
  ultimately have "direction cfg * ts ! j = 0"
    using assms(3) by simp
  then show ?thesis
    using direction_cases [of cfg] by auto
qed


lemma propagate_Inr_run:
  assumes "propagate sch state0 k time_grid cfg perturbation = Inr traj"
  shows "valid_time_grid cfg time_grid"
    and "\<exists>m. run sch cfg (\<lambda>t s. derivative (singular_below cfg) t s k perturbation) (step_budget cfg)
               \<lparr>t_now = 0, y_now = state0, h_next = None, last_step = None\<rparr> time_grid [] =
             (Inr traj, m)"
proof -
  show v: "valid_time_grid cfg time_grid"
    using assms by (auto simp: propagate_def propagate_counted_def split: if_splits)
  with assms show "\<exists>m. run sch cfg (\<lambda>t s. derivative (singular_below cfg) t s k perturbation) (step_budget cfg)
               \<lparr>t_now = 0, y_now = state0, h_next = None, last_step = None\<rparr> time_grid [] =
             (Inr traj, m)"
    by (auto simp: propagate_def propagate_counted_def split: prod.splits)
qed

lemma run_propagate:
  assumes "valid_time_grid cfg time_grid"
    and "run sch cfg (\<lambda>t s. derivative (singular_below cfg) t s k perturbation) (step_budget cfg)
           \<lparr>t_now = 0, y_now = state0, h_next = None, last_step = None\<rparr> time_grid [] =
         (res, m)"
  shows "propagate sch state0 k time_grid cfg perturbation = res"
  using assms by (simp add: propagate_def propagate_counted_def)

lemma euclid_axis: "euclid x 0 0 = \<bar>x\<bar>"
  by (simp add: euclid_def)

text \<open>
  A run of the instance: a body at rest at distance 1 falls towards the attractor; one
  trial step of size \<open>1 / 2\<close> is accepted.
\<close>

lemma demo_run:
  "propagate_counted heun_euler ((1, 0, 0), (0, 0, 0)) 1 [0, 1 / 2] demo_config zero_perturbation =
     (Inr [((1, 0, 0), (0, 0, 0)), ((7 / 8, 0, 0), (- 1 / 2, 0, 0))], 1)"
  by (simp add: propagate_counted_def valid_time_grid_def direction_def demo_config_def
      run.simps(2) beyond_def state_at_def starting_step_def heun_euler_def derivative_def
      position_def velocity_def euclid_axis zero_perturbation_def tolerance_def Let_def
      numeral_eq_Suc)



subsection \<open>Time grid\<close>

text \<open>
  Claim C4. For every time grid whose entries are not monotonically ordered in the
  direction of propagation, \<open>propagate\<close> fails with InvalidTimeGridError, and it has
  executed no trial step of the integrator: whatever the scheme, the initial state and the
  budget are, the count of executed steps is 0.
\<close>

theorem invalid_time_grid_rejected:
  assumes "\<not> sorted (map (\<lambda>t. direction cfg * t) time_grid)"
  shows "propagate_counted sch state0 k time_grid cfg perturbation = (Inl InvalidTimeGridError, 0)"
  using assms by (simp add: propagate_counted_def valid_time_grid_def)

theorem invalid_time_grid_rejected_witness:
  "\<not> sorted (map (\<lambda>t. direction demo_config * t) [2, 1]) \<and>
   propagate_counted heun_euler ((1, 0, 0), (0, 0, 0)) 1 [2, 1] demo_config zero_perturbation =
     (Inl InvalidTimeGridError, 0)"
proof -
  have h: "\<not> sorted (map (\<lambda>t. direction demo_config * t) [2, 1])"
    by (simp add: direction_def demo_config_def)
  show ?thesis
    using invalid_time_grid_rejected [OF h] h by simp
qed

text \<open>
  Claim C2. The sequence that \<open>propagate\<close> returns has the length of the time grid; an
  entry of the grid that requests time 0 gets the initial state \<open>state0\<close> unchanged;
  and the states come in the order of the grid: the trajectory for a prefix of the grid is
  that prefix of the trajectory.
\<close>

theorem propagate_follows_time_grid:
  assumes "propagate sch state0 k time_grid cfg perturbation = Inr traj"
  shows "length traj = length time_grid \<and>
         (\<forall>i<length time_grid. time_grid ! i = 0 \<longrightarrow> traj ! i = state0) \<and>
         (\<forall>n\<le>length time_grid.
            propagate sch state0 k (take n time_grid) cfg perturbation = Inr (take n traj))"
proof -
  let ?f = "\<lambda>t s. derivative (singular_below cfg) t s k perturbation"
  let ?fr = "\<lparr>t_now = 0, y_now = state0, h_next = None, last_step = None\<rparr>"
  from propagate_Inr_run [OF assms] obtain m
    where valid: "valid_time_grid cfg time_grid"
      and r: "run sch cfg ?f (step_budget cfg) ?fr time_grid [] = (Inr traj, m)"
    by blast
  have len: "length traj = length time_grid"
    using run_extends [OF r] by auto
  have zero: "traj ! i = state0" if "i < length time_grid" and "time_grid ! i = 0" for i
  proof -
    let ?zs = "take (Suc i) time_grid"
    have "\<forall>t\<in>set ?zs. t = 0"
      using valid_time_grid_zero_prefix [OF valid that] that(1)
      by (auto simp: in_set_conv_nth)
    then have nb: "\<forall>t\<in>set ?zs. \<not> beyond cfg ?fr t"
      by (auto simp: beyond_def)
    have "run sch cfg ?f (step_budget cfg) ?fr (?zs @ drop (Suc i) time_grid) [] =
            run sch cfg ?f (step_budget cfg) ?fr (drop (Suc i) time_grid)
              ([] @ replicate (length ?zs) (y_now ?fr))"
      by (rule run_at_start [OF _ nb]) simp
    moreover have "min (length time_grid) (Suc i) = Suc i"
      using that(1) by simp
    ultimately
    have "run sch cfg ?f (step_budget cfg) ?fr (drop (Suc i) time_grid)
            (replicate (Suc i) state0) = (Inr traj, m)"
      using r by simp
    from run_extends [OF this] obtain ys where "traj = replicate (Suc i) state0 @ ys"
      by blast
    then show ?thesis
      by (simp add: nth_append del: replicate_Suc)
  qed
  have pre: "propagate sch state0 k (take n time_grid) cfg perturbation = Inr (take n traj)"
    if "n \<le> length time_grid" for n
  proof -
    from r have "run sch cfg ?f (step_budget cfg) ?fr (take n time_grid @ drop n time_grid) [] =
                   (Inr traj, m)"
      by simp
    from run_prefix [OF this] that obtain m'
      where "run sch cfg ?f (step_budget cfg) ?fr (take n time_grid) [] = (Inr (take n traj), m')"
      by (auto simp: min_def)
    with valid_time_grid_take [OF valid] show ?thesis
      by (rule run_propagate)
  qed
  from len zero pre show ?thesis
    by blast
qed

theorem propagate_follows_time_grid_witness:
  "propagate heun_euler ((1, 0, 0), (0, 0, 0)) 1 [0, 1 / 2] demo_config zero_perturbation =
     Inr [((1, 0, 0), (0, 0, 0)), ((7 / 8, 0, 0), (- 1 / 2, 0, 0))] \<and>
   length [((1, 0, 0), (0, 0, 0)), ((7 / 8, 0, 0), (- 1 / 2, 0, 0)) :: State] =
     length [0, 1 / 2 :: real] \<and>
   [((1, 0, 0), (0, 0, 0)), ((7 / 8, 0, 0), (- 1 / 2, 0, 0)) :: State] ! 0 = ((1, 0, 0), (0, 0, 0)) \<and>
   propagate heun_euler ((1, 0, 0), (0, 0, 0)) 1 [0] demo_config zero_perturbation =
     Inr [((1, 0, 0), (0, 0, 0))]"
proof -
  let ?traj = "[((1, 0, 0), (0, 0, 0)), ((7 / 8, 0, 0), (- 1 / 2, 0, 0)) :: State]"
  have h: "propagate heun_euler ((1, 0, 0), (0, 0, 0)) 1 [0, 1 / 2] demo_config
             zero_perturbation = Inr ?traj"
    by (simp add: propagate_def demo_run)
  from propagate_follows_time_grid [OF h]
  have "propagate heun_euler ((1, 0, 0), (0, 0, 0)) 1 (take 1 [0, 1 / 2]) demo_config
          zero_perturbation = Inr (take 1 ?traj)"
    by (elim conjE allE [of _ "1 :: nat"]) simp
  with h show ?thesis
    by simp
qed

end
